theory Spec2Isabelle
  imports Main "HOL-Library.Sublist"
begin

section \<open>Text helpers shared by the front-end code\<close>

text \<open>
  JavaScript strings are modelled as \<open>string\<close>: one \<open>char\<close> per code unit, restricted to
  the code units 0..255. The white space class of a regular expression (\<open>\s\<close>) and of
  \<open>String.prototype.trim\<close> then consists of TAB, LF, VT, FF, CR, SPACE and NBSP.
\<close>

definition is_space :: "char \<Rightarrow> bool" where
  "is_space c = (of_char c \<in> {9, 10, 11, 12, 13, 32, 160 :: nat})"

definition is_hex :: "char \<Rightarrow> bool" where
  "is_hex c = (c \<in> set ''0123456789abcdefABCDEF'')"

definition ws_run :: "string \<Rightarrow> nat" where
  "ws_run s = length (takeWhile is_space s)"

text \<open>The pattern \<open>ev_[a-f0-9]{8}\<close> under the flag \<open>i\<close>, anchored at the head of the text.\<close>

definition marker_at :: "string \<Rightarrow> bool" where
  "marker_at s =
     (case s of
        e # v # u # rest \<Rightarrow>
          (e = CHR ''e'' \<or> e = CHR ''E'') \<and> (v = CHR ''v'' \<or> v = CHR ''V'') \<and> u = CHR ''_''
          \<and> 8 \<le> length rest \<and> list_all is_hex (take 8 rest)
      | _ \<Rightarrow> False)"

fun contains_marker :: "string \<Rightarrow> bool" where
  "contains_marker [] = False"
| "contains_marker (c # cs) = (marker_at (c # cs) \<or> contains_marker cs)"

text \<open>\<open>text.match(/ev_[a-f0-9]{8}/gi)\<close>: the leftmost matches, none overlapping another.\<close>

fun match_markers :: "string \<Rightarrow> string list" where
  "match_markers [] = []"
| "match_markers (c # cs) =
     (if marker_at (c # cs) then take 11 (c # cs) # match_markers (drop 10 cs)
      else match_markers cs)"

text \<open>
  \<open>[...new Set(xs)]\<close>: a JavaScript \<open>Set\<close> iterates in insertion order, so the first
  occurrence of every element is the one that stays.
\<close>

fun unique_in_order :: "'a list \<Rightarrow> 'a list \<Rightarrow> 'a list" where
  "unique_in_order seen [] = []"
| "unique_in_order seen (x # xs) =
     (if x \<in> set seen then unique_in_order seen xs else x # unique_in_order (x # seen) xs)"

definition new_Set :: "'a list \<Rightarrow> 'a list" where
  "new_Set xs = unique_in_order [] xs"

text \<open>
  \<open>s.replace(re, r)\<close> for a global regular expression without anchors: the matcher gives
  the length of the match that starts at the head of the remaining text. After an empty
  match the scan moves one code unit on.
\<close>

fun replace_all :: "(string \<Rightarrow> nat option) \<Rightarrow> string \<Rightarrow> string \<Rightarrow> string" where
  "replace_all m r [] = (case m [] of Some _ \<Rightarrow> r | None \<Rightarrow> [])"
| "replace_all m r (c # cs) =
     (case m (c # cs) of
        None \<Rightarrow> c # replace_all m r cs
      | Some 0 \<Rightarrow> r @ c # replace_all m r cs
      | Some (Suc n) \<Rightarrow> r @ replace_all m r (drop n cs))"

text \<open>\<open>s.replace(pat, r)\<close> for a string pattern: only the first occurrence is replaced.\<close>

fun replace_first :: "string \<Rightarrow> string \<Rightarrow> string \<Rightarrow> string" where
  "replace_first pat r [] = (if pat = [] then r else [])"
| "replace_first pat r (c # cs) =
     (if prefix pat (c # cs) then r @ drop (length pat) (c # cs)
      else c # replace_first pat r cs)"

definition trim :: "string \<Rightarrow> string" where
  "trim s = rev (dropWhile is_space (rev (dropWhile is_space s)))"

text \<open>\<open>\s*\((?:[^)]*ev_[a-f0-9]{8}[^)]*)\)\<close> and its twin with square brackets.\<close>

definition m_group :: "char \<Rightarrow> char \<Rightarrow> string \<Rightarrow> nat option" where
  "m_group opn cls s =
     (let k = ws_run s in
      case drop k s of
        [] \<Rightarrow> None
      | c # u \<Rightarrow>
          if c = opn then
            (let seg = takeWhile (\<lambda>x. x \<noteq> cls) u in
             if length seg < length u \<and> contains_marker seg
             then Some (k + 1 + length seg + 1) else None)
          else None)"

text \<open>\<open>\s*ev_[a-f0-9]{8}\<close>\<close>

definition m_marker :: "string \<Rightarrow> nat option" where
  "m_marker s = (let k = ws_run s in if marker_at (drop k s) then Some (k + 11) else None)"

text \<open>\<open>\(\s*\)\<close>\<close>

definition m_empty_parens :: "string \<Rightarrow> nat option" where
  "m_empty_parens s =
     (case s of
        [] \<Rightarrow> None
      | c # u \<Rightarrow>
          if c = CHR ''(''
          then (case drop (ws_run u) u of
                  [] \<Rightarrow> None
                | d # _ \<Rightarrow> if d = CHR '')'' then Some (ws_run u + 2) else None)
          else None)"

text \<open>\<open>\s{2,}\<close>\<close>

definition m_spaces :: "string \<Rightarrow> nat option" where
  "m_spaces s = (let k = ws_run s in if 2 \<le> k then Some k else None)"

definition stripEvidenceIds :: "string \<Rightarrow> string" where
  "stripEvidenceIds txt =
     trim
       (replace_first '' .'' ''.''
         (replace_first '' ,'' '',''
           (replace_all m_spaces '' ''
             (replace_all m_empty_parens ''''
               (replace_all m_marker ''''
                 (replace_all (m_group (CHR ''['') (CHR '']'')) ''''
                   (replace_all (m_group (CHR ''('') (CHR '')'')) '''' txt)))))))"

definition extractEvidenceIds :: "string \<Rightarrow> string list" where
  "extractEvidenceIds txt = new_Set (match_markers txt)"

text \<open>Decimal rendering of a number inside a template literal.\<close>

fun digits :: "nat \<Rightarrow> string" where
  "digits n =
     (if n < 10 then [char_of (48 + n)]
      else digits (n div 10) @ [char_of (48 + n mod 10)])"

definition cite :: "nat \<Rightarrow> string" where
  "cite n = ''['' @ digits n @ '']''"

section \<open>The data of \<open>lib/api.ts\<close>\<close>

record TimeWindow =
  tw_start :: string
  tw_end :: string


record EvidenceItem =
  evidence_id :: string
  title :: "string option"
  source_name :: string
  url :: "string option"
  publish_date :: "string option"

record Bullet =
  bullet_text :: string
  evidence_ids :: "string list"
  player_referenced :: "string option"

record SectionData =
  section_id :: string
  headline :: "string option"
  big_picture :: string
  big_picture_evidence_ids :: "string list"
  bullets :: "Bullet list"
  risk_flags :: "string list"

record EvidencePack =
  items :: "EvidenceItem list"

record UIBullet =
  ui_text :: string
  evidenceId :: string

record UIEvidence =
  ui_id :: string
  ui_title :: string
  ui_source :: string
  ui_url :: string
  publishDate :: "string option"

record SectionForUI =
  ui_headline :: "string option"
  bigPicture :: string
  ui_bullets :: "UIBullet list"
  evidence :: "UIEvidence list"



section \<open>\<open>convertToUIFormat\<close> and its inner \<open>convertSection\<close>\<close>

text \<open>\<open>a || d\<close> on a possibly null string: null and the empty string both give \<open>d\<close>.\<close>

definition or_else :: "string option \<Rightarrow> string \<Rightarrow> string" where
  "or_else a d = (case a of None \<Rightarrow> d | Some s \<Rightarrow> if s = [] then d else s)"

definition bigPictureIds :: "SectionData \<Rightarrow> string list" where
  "bigPictureIds section =
     (if 0 < length (big_picture_evidence_ids section) then big_picture_evidence_ids section
      else extractEvidenceIds (big_picture section))"

definition bullet_ids :: "Bullet \<Rightarrow> string list" where
  "bullet_ids b =
     (if 0 < length (evidence_ids b) then evidence_ids b else extractEvidenceIds (bullet_text b))"

definition bulletEvidenceIds :: "SectionData \<Rightarrow> string list list" where
  "bulletEvidenceIds section = map bullet_ids (bullets section)"

definition allReferencedIds :: "SectionData \<Rightarrow> string list" where
  "allReferencedIds section = fold (\<lambda>ids acc. acc @ ids) (bulletEvidenceIds section) (bigPictureIds section)"

definition uniqueIds :: "SectionData \<Rightarrow> string list" where
  "uniqueIds section = new_Set (allReferencedIds section)"

text \<open>
  \<open>uniqueIds.forEach((id, idx) => { idToNum[id] = idx + 1 })\<close>. The table is only ever
  read at evidence IDs; IDs are taken not to collide with the property names every
  JavaScript object inherits.
\<close>

definition assign_num :: "nat \<times> string \<Rightarrow> (string \<rightharpoonup> nat) \<Rightarrow> (string \<rightharpoonup> nat)" where
  "assign_num p m = (case p of (idx, i) \<Rightarrow> m(i \<mapsto> idx + 1))"

definition idToNum :: "SectionData \<Rightarrow> string \<rightharpoonup> nat" where
  "idToNum section = fold assign_num (enumerate 0 (uniqueIds section)) Map.empty"

text \<open>\<open>ids.slice(0, k).map(id => idToNum[id]).filter(Boolean)\<close>\<close>

definition citeNums :: "SectionData \<Rightarrow> nat \<Rightarrow> string list \<Rightarrow> nat list" where
  "citeNums section k ids =
     filter (\<lambda>n. n \<noteq> 0) (List.map_filter (idToNum section) (take k ids))"

definition withCites :: "string \<Rightarrow> nat list \<Rightarrow> string" where
  "withCites clean nums =
     clean @ (if 0 < length nums then '' '' @ concat (map cite nums) else '''')"

definition bigPictureWithCites :: "SectionData \<Rightarrow> string" where
  "bigPictureWithCites section =
     withCites (stripEvidenceIds (big_picture section))
       (citeNums section 3 (bigPictureIds section))"

definition bulletWithCites :: "SectionData \<Rightarrow> Bullet \<Rightarrow> UIBullet" where
  "bulletWithCites section b =
     \<lparr> ui_text = withCites (stripEvidenceIds (bullet_text b)) (citeNums section 2 (bullet_ids b)),
       evidenceId = (case evidence_ids b of [] \<Rightarrow> '''' | i # _ \<Rightarrow> i) \<rparr>"

definition sort_rank :: "SectionData \<Rightarrow> EvidenceItem \<Rightarrow> nat" where
  "sort_rank section e =
     (case idToNum section (evidence_id e) of
        None \<Rightarrow> 999
      | Some n \<Rightarrow> if n = 0 then 999 else n)"

definition toUIEvidence :: "EvidenceItem \<Rightarrow> UIEvidence" where
  "toUIEvidence e =
     \<lparr> ui_id = evidence_id e,
       ui_title = or_else (title e) ''Source'',
       ui_source = source_name e,
       ui_url = or_else (url e) ''#'',
       publishDate = publish_date e \<rparr>"

text \<open>
  The filtered copy of the pack, before the final \<open>map\<close>. \<open>Array.prototype.sort\<close> is
  stable, and the comparator is the difference of two ranks.
\<close>

definition referencedItems :: "SectionData \<Rightarrow> EvidencePack option \<Rightarrow> EvidenceItem list" where
  "referencedItems section evidencePack =
     sort_key (sort_rank section)
       (filter (\<lambda>e. evidence_id e \<in> set (uniqueIds section))
          (case evidencePack of None \<Rightarrow> [] | Some p \<Rightarrow> items p))"

definition referencedEvidence :: "SectionData \<Rightarrow> EvidencePack option \<Rightarrow> UIEvidence list" where
  "referencedEvidence section evidencePack = map toUIEvidence (referencedItems section evidencePack)"

definition convertSection ::
  "(string \<rightharpoonup> SectionData) \<Rightarrow> (string \<rightharpoonup> EvidencePack) \<Rightarrow> string \<Rightarrow> SectionForUI" where
  "convertSection secs evidencePacks sectionId =
     (case secs sectionId of
        None \<Rightarrow> \<lparr> ui_headline = None, bigPicture = '''', ui_bullets = [], evidence = [] \<rparr>
      | Some section \<Rightarrow>
          \<lparr> ui_headline = headline section,
            bigPicture = bigPictureWithCites section,
            ui_bullets = map (bulletWithCites section) (bullets section),
            evidence = referencedEvidence section (evidencePacks sectionId) \<rparr>)"







subsection \<open>Sample data\<close>

definition ev :: "string \<Rightarrow> string \<Rightarrow> EvidenceItem" where
  "ev i t = \<lparr> evidence_id = i, title = Some t, source_name = ''wire'', url = None,
              publish_date = None \<rparr>"

definition sample_section :: SectionData where
  "sample_section =
     \<lparr> section_id = ''data_centers'', headline = Some ''Power is the new land'',
       big_picture = ''Demand keeps rising (ev_aaaaaaa1, ev_aaaaaaa2) across hubs .'',
       big_picture_evidence_ids = [''ev_aaaaaaa1'', ''ev_aaaaaaa2'', ''ev_aaaaaaa3'', ''ev_aaaaaaa4''],
       bullets =
         [\<lparr> bullet_text = ''Equinix expands in Dublin ev_aaaaaaa3'',
            evidence_ids = [''ev_aaaaaaa3'', ''ev_aaaaaaa5'', ''ev_aaaaaaa1''],
            player_referenced = Some ''Equinix'' \<rparr>,
          \<lparr> bullet_text = ''Grid limits bite [ev_aaaaaaa2]'', evidence_ids = [],
            player_referenced = None \<rparr>],
       risk_flags = [] \<rparr>"

definition sample_pack :: EvidencePack where
  "sample_pack =
     \<lparr> items = [ev ''ev_aaaaaaa5'' ''five'', ev ''ev_bbbbbbb9'' ''unused'', ev ''ev_aaaaaaa2'' ''two'',
                 ev ''ev_aaaaaaa1'' ''one'', ev ''ev_aaaaaaa4'' ''four'', ev ''ev_aaaaaaa3'' ''three''] \<rparr>"

definition twin_section :: SectionData where
  "twin_section =
     \<lparr> section_id = ''towers_wireless'', headline = None, big_picture = ''Towers consolidate.'',
       big_picture_evidence_ids = [''ev_000000aa'', ''ev_000000bb''], bullets = [],
       risk_flags = [] \<rparr>"

definition twin_pack :: EvidencePack where
  "twin_pack =
     \<lparr> items = [ev ''ev_000000aa'' ''first copy'', ev ''ev_000000aa'' ''second copy'',
                 ev ''ev_000000bb'' ''other''] \<rparr>"

section \<open>The generation view (\<open>GenerationView\<close>)\<close>

datatype step_status = St_pending | St_active | St_complete

record StatusStep =
  step_id :: string
  label :: string
  status :: step_status

definition allSteps :: "StatusStep list" where
  "allSteps =
     [\<lparr> step_id = ''manager'', label = ''Initializing run'', status = St_pending \<rparr>,
      \<lparr> step_id = ''research_dc'', label = ''Researching Data Centers'', status = St_pending \<rparr>,
      \<lparr> step_id = ''research_cf'', label = ''Researching Connectivity'', status = St_pending \<rparr>,
      \<lparr> step_id = ''research_tw'', label = ''Researching Towers'', status = St_pending \<rparr>,
      \<lparr> step_id = ''review'', label = ''Reviewing content'', status = St_pending \<rparr>,
      \<lparr> step_id = ''editor'', label = ''Editor finalising'', status = St_pending \<rparr>,
      \<lparr> step_id = ''assemble'', label = ''Assembling newsletter'', status = St_pending \<rparr>]"

record Verticals =
  dataCenters :: bool
  connectivity :: bool
  towers :: bool

definition getFilteredSteps :: "Verticals \<Rightarrow> StatusStep list" where
  "getFilteredSteps selectedVerticals =
     filter (\<lambda>step.
        if step_id step = ''research_dc'' \<and> \<not> dataCenters selectedVerticals then False
        else if step_id step = ''research_cf'' \<and> \<not> connectivity selectedVerticals then False
        else if step_id step = ''research_tw'' \<and> \<not> towers selectedVerticals then False
        else True) allSteps"

definition parallelSteps :: "string list" where
  "parallelSteps = [''research_dc'', ''research_cf'', ''research_tw'']"

definition updateStep :: "string \<Rightarrow> step_status \<Rightarrow> StatusStep list \<Rightarrow> StatusStep list" where
  "updateStep stepId st prev =
     map (\<lambda>step.
        if step_id step = stepId then step\<lparr>status := st\<rparr>
        else if st = St_active \<and> stepId \<in> set parallelSteps \<and> step_id step \<in> set parallelSteps
          then step
        else if st = St_active \<and> status step = St_active \<and> step_id step \<noteq> stepId
                \<and> step_id step \<notin> set parallelSteps
          then step\<lparr>status := St_complete\<rparr>
        else step) prev"

definition stepMap :: "string \<rightharpoonup> string" where
  "stepMap =
     [''manager'' \<mapsto> ''manager'',
      ''research_data_centers'' \<mapsto> ''research_dc'',
      ''research_connectivity'' \<mapsto> ''research_cf'',
      ''research_towers'' \<mapsto> ''research_tw'',
      ''review'' \<mapsto> ''review'',
      ''editor'' \<mapsto> ''editor'',
      ''assemble'' \<mapsto> ''assemble'']"

text \<open>One status event of the stream, as \<open>onStatus(step, message, status)\<close> receives it.\<close>

record StatusEvent =
  ev_step :: string
  ev_message :: string
  ev_status :: string

definition handleStatusUpdate :: "StatusEvent \<Rightarrow> StatusStep list \<Rightarrow> StatusStep list" where
  "handleStatusUpdate e prev =
     (let frontendStep = or_else (stepMap (ev_step e)) (ev_step e);
          frontendStatus = (if ev_status e = ''complete'' then St_complete else St_active)
      in updateStep frontendStep frontendStatus prev)"

record GenerateRequest =
  req_time_window :: TimeWindow
  req_region_focus :: "string option"
  req_max_review_rounds :: int
  req_active_players :: "(string \<times> string list) list"
  req_verticals :: "string list"
  req_search_provider :: string
  req_strict_date_filtering :: bool

record GenerateResponse =
  resp_newsletter_id :: string
  resp_status :: string

text \<open>
  What \<open>handleGenerate\<close> does to the outside: a toast (title, description, variant), the
  \<open>onGenerationStart\<close> callback, and the two calls of the API client.
\<close>

datatype effect =
    Toast string string "string option"
  | OnGenerationStart
  | GenerateNewsletterStreaming GenerateRequest
  | GenerateNewsletter GenerateRequest

text \<open>The React state of the component that \<open>handleGenerate\<close> reads or sets.\<close>

record GenState =
  isGenerating :: bool
  steps :: "StatusStep list"
  gen_error :: "string option"
  lastNewsletterId :: "string option"
  readyNewsletterId :: "string option"
  generatedVerticalIds :: "string list"
  debugEvents :: "(string \<times> string) list"
  debugSourcesOpen :: bool
  verticals :: Verticals
  startDate :: string
  endDate :: string
  sel_regions :: "string list"

text \<open>
  The values the four settings getters return (\<open>getActivePlayers\<close>, \<open>getReviewRounds\<close>,
  \<open>getSearchProvider\<close>, \<open>getStrictDateFiltering\<close>), and what the backend answers: the
  status events of the stream, then the response or the thrown message of each call.
\<close>

record GenSettings =
  activePlayers :: "(string \<times> string list) list"
  reviewRounds :: int
  searchProvider :: string
  strictDateFiltering :: bool

record Backend =
  stream_events :: "StatusEvent list"
  stream_result :: "string + GenerateResponse"
  plain_result :: "string + GenerateResponse"

fun join :: "string \<Rightarrow> string list \<Rightarrow> string" where
  "join sep [] = []"
| "join sep [x] = x"
| "join sep (x # y # ys) = x @ sep @ join sep (y # ys)"

definition selectedVerticalIds :: "Verticals \<Rightarrow> string list" where
  "selectedVerticalIds v =
     (if dataCenters v then [''data_centers''] else [])
     @ (if connectivity v then [''connectivity_fibre''] else [])
     @ (if towers v then [''towers_wireless''] else [])"

definition build_request :: "GenSettings \<Rightarrow> GenState \<Rightarrow> GenerateRequest" where
  "build_request cfg st =
     \<lparr> req_time_window = \<lparr> tw_start = startDate st, tw_end = endDate st \<rparr>,
       req_region_focus =
         (if 0 < length (sel_regions st) \<and> length (sel_regions st) < 6
          then Some (join '', '' (sel_regions st)) else None),
       req_max_review_rounds = reviewRounds cfg,
       req_active_players = activePlayers cfg,
       req_verticals = selectedVerticalIds (verticals st),
       req_search_provider = searchProvider cfg,
       req_strict_date_filtering = strictDateFiltering cfg \<rparr>"

definition finish_ok :: "GenState \<Rightarrow> GenerateResponse \<Rightarrow> GenState" where
  "finish_ok st response =
     st\<lparr> lastNewsletterId := Some (resp_newsletter_id response),
         readyNewsletterId := Some (resp_newsletter_id response),
         generatedVerticalIds := selectedVerticalIds (verticals st),
         debugSourcesOpen := False,
         isGenerating := False \<rparr>"

definition handleGenerate :: "GenSettings \<Rightarrow> Backend \<Rightarrow> GenState \<Rightarrow> effect list \<times> GenState" where
  "handleGenerate cfg be st =
     (let hasVerticals = dataCenters (verticals st) \<or> connectivity (verticals st) \<or> towers (verticals st)
      in
      if \<not> hasVerticals then
        ([Toast ''Error'' ''Select at least one sector to generate a newsletter'' (Some ''destructive'')],
         st)
      else
        (let filteredSteps = getFilteredSteps (verticals st);
             st1 = st\<lparr> isGenerating := True, gen_error := None, lastNewsletterId := None,
                       readyNewsletterId := None, generatedVerticalIds := [], debugEvents := [],
                       steps := map (\<lambda>s. s\<lparr>status := St_pending\<rparr>) filteredSteps \<rparr>;
             req = build_request cfg st;
             st2 = st1\<lparr> steps := fold handleStatusUpdate (stream_events be) (steps st1) \<rparr>;
             done_toast = Toast ''Newsletter generated'' ''Your newsletter is ready to view'' None
         in
         case stream_result be of
           Inr response \<Rightarrow>
             ([OnGenerationStart, GenerateNewsletterStreaming req, done_toast],
              finish_ok (st2\<lparr> steps := map (\<lambda>s. s\<lparr>status := St_complete\<rparr>) (steps st2) \<rparr>) response)
         | Inl _ \<Rightarrow>
             (let st3 = st2\<lparr> steps :=
                          fold (\<lambda>step ss. updateStep (step_id step) St_complete
                                             (updateStep (step_id step) St_active ss))
                            filteredSteps (steps st2) \<rparr>
              in
              case plain_result be of
                Inr response \<Rightarrow>
                  ([OnGenerationStart, GenerateNewsletterStreaming req, GenerateNewsletter req,
                    done_toast],
                   finish_ok st3 response)
              | Inl message \<Rightarrow>
                  ([OnGenerationStart, GenerateNewsletterStreaming req, GenerateNewsletter req,
                    Toast ''Generation failed'' message (Some ''destructive'')],
                   st3\<lparr> gen_error := Some message, isGenerating := False \<rparr>))))"

definition is_request :: "effect \<Rightarrow> bool" where
  "is_request e =
     (case e of GenerateNewsletterStreaming _ \<Rightarrow> True | GenerateNewsletter _ \<Rightarrow> True | _ \<Rightarrow> False)"

definition is_error_toast :: "effect \<Rightarrow> bool" where
  "is_error_toast e = (case e of Toast _ _ (Some v) \<Rightarrow> v = ''destructive'' | _ \<Rightarrow> False)"

section \<open>Research settings (\<open>settings-modal.tsx\<close>)\<close>

definition DEFAULT_PLAYERS :: "(string \<times> string list) list" where
  "DEFAULT_PLAYERS =
     [(''data_centers'',
       [''Equinix'', ''Digital Realty'', ''CyrusOne'', ''QTS Data Centers'',
        ''NTT Global Data Centers'', ''Iron Mountain Data Centers'', ''Switch'',
        ''STACK Infrastructure'', ''Google Cloud'', ''Amazon Web Services (AWS)'']),
      (''connectivity_fibre'',
       [''Lumen Technologies'', ''Zayo'', ''Crown Castle Fiber'', ''Colt Technology Services'',
        ''euNetworks'', ''CityFibre'', ''Openreach'', ''Telxius'',
        ''Sparkle (Telecom Italia Sparkle)'', ''Subsea7'']),
      (''towers_wireless'',
       [''American Tower'', ''Cellnex Telecom'', ''Vantage Towers'', ''SBA Communications'',
        ''IHS Towers'', ''Indus Towers'', ''Crown Castle'', ''Phoenix Tower International'',
        ''Helios Towers'', ''DigitalBridge''])]"

type_synonym PlayerSettings = "string \<rightharpoonup> (string \<rightharpoonup> bool)"

type_synonym PlayerNames = "string \<rightharpoonup> (string \<rightharpoonup> string)"

text \<open>
  One key of \<open>localStorage\<close>: nothing usable is stored (\<open>getItem\<close> gives null or the empty
  string), or the stored text does not yield an object (\<open>JSON.parse\<close> throws, or the value
  it gives makes the code that reads it throw), or it parses to a value of the declared type.
\<close>

datatype 'a stored = Missing | Malformed | Parsed 'a

record Browser =
  settings_item :: "PlayerSettings stored"
  names_item :: "PlayerNames stored"

text \<open>
  The environment is \<open>None\<close> where \<open>typeof window === "undefined"\<close> (rendering on the
  server), and the browser's storage otherwise.
\<close>

definition migrate_vertical ::
  "string \<times> string list \<Rightarrow> PlayerSettings \<times> bool \<Rightarrow> PlayerSettings \<times> bool" where
  "migrate_vertical vp acc =
     (case vp of (vertical, players) \<Rightarrow>
      case acc of (parsed, needsSave) \<Rightarrow>
        (let start = (case parsed vertical of
                        None \<Rightarrow> (Map.empty, True)
                      | Some ps \<Rightarrow> (ps, needsSave));
             fin = fold (\<lambda>player pn.
                       if fst pn player = None then ((fst pn)(player \<mapsto> True), True) else pn)
                     players start
         in (parsed(vertical \<mapsto> fst fin), snd fin)))"

definition default_settings :: PlayerSettings where
  "default_settings =
     fold (\<lambda>vp defaults.
             defaults(fst vp \<mapsto> fold (\<lambda>player m. m(player \<mapsto> True)) (snd vp) Map.empty))
       DEFAULT_PLAYERS Map.empty"

definition getPlayerSettings :: "Browser option \<Rightarrow> PlayerSettings \<times> Browser option" where
  "getPlayerSettings w =
     (case w of
        None \<Rightarrow> (Map.empty, None)
      | Some b \<Rightarrow>
          (case settings_item b of
             Parsed parsed \<Rightarrow>
               (let r = fold migrate_vertical DEFAULT_PLAYERS (parsed, False)
                in (fst r, Some (if snd r then b\<lparr>settings_item := Parsed (fst r)\<rparr> else b)))
           | _ \<Rightarrow> (default_settings, Some (b\<lparr>settings_item := Parsed default_settings\<rparr>))))"

definition getPlayerNames :: "Browser option \<Rightarrow> PlayerNames" where
  "getPlayerNames w =
     (case w of
        None \<Rightarrow> Map.empty
      | Some b \<Rightarrow> (case names_item b of Parsed n \<Rightarrow> n | _ \<Rightarrow> Map.empty))"

definition display_name :: "(string \<rightharpoonup> string) \<Rightarrow> string \<Rightarrow> string" where
  "display_name verticalNames player = or_else (verticalNames player) player"

definition getActivePlayers :: "Browser option \<Rightarrow> (string \<times> string list) list \<times> Browser option" where
  "getActivePlayers w =
     (let sw = getPlayerSettings w;
          names = getPlayerNames (snd sw)
      in (map (\<lambda>vp.
                 (let verticalSettings = (case fst sw (fst vp) of None \<Rightarrow> Map.empty | Some s \<Rightarrow> s);
                      verticalNames = (case names (fst vp) of None \<Rightarrow> Map.empty | Some n \<Rightarrow> n)
                  in (fst vp,
                      map (display_name verticalNames)
                        (filter (\<lambda>player. verticalSettings player = Some True) (snd vp)))))
            DEFAULT_PLAYERS,
          snd sw))"

text \<open>The players of one vertical in such a result, and the flag the storage holds.\<close>

definition players_of :: "(string \<times> string list) list \<Rightarrow> string \<Rightarrow> string list" where
  "players_of result vertical = (case map_of result vertical of None \<Rightarrow> [] | Some ps \<Rightarrow> ps)"

definition stored_flag :: "Browser option \<Rightarrow> string \<Rightarrow> string \<Rightarrow> bool option" where
  "stored_flag w vertical player =
     (case w of
        None \<Rightarrow> None
      | Some b \<Rightarrow>
          (case settings_item b of
             Parsed parsed \<Rightarrow> (case parsed vertical of None \<Rightarrow> None | Some ps \<Rightarrow> ps player)
           | _ \<Rightarrow> None))"

definition stored_name :: "Browser option \<Rightarrow> string \<Rightarrow> string \<Rightarrow> string" where
  "stored_name w vertical player =
     display_name (case getPlayerNames w vertical of None \<Rightarrow> Map.empty | Some n \<Rightarrow> n) player"

definition sample_browser :: Browser where
  "sample_browser =
     \<lparr> settings_item =
         Parsed [''data_centers'' \<mapsto> [''Equinix'' \<mapsto> False, ''Switch'' \<mapsto> True]],
       names_item = Parsed [''data_centers'' \<mapsto> [''Switch'' \<mapsto> ''Switch Inc'']] \<rparr>"

section \<open>The orchestration core\<close>

text \<open>
  Modelled from the spec: the data model of section 3 (Draft, Bullet, ReviewScore, Unit,
  RunState). The orchestrator, the Section Drafter, the Reviewer, the Fix Router and the
  Editor run in the backend, whose code is not part of the sources at hand.
\<close>

record SpecBullet =
  sb_text :: string
  sb_cites :: "string list"

record Draft =
  paragraph_text :: string
  paragraph_cites :: "string list"
  draft_bullets :: "SpecBullet list"

record ReviewScore =
  grounding :: nat
  clarity :: nat
  newsworthiness :: nat
  balance :: nat
  voice_fit :: nat
  blocking_issues :: "string list"

datatype unit_status = Pending | Drafting | Under_review | Needs_fix | Accepted | Failed

record Unit =
  vertical_id :: string
  current_draft :: "Draft option"
  pack_ids :: "string list"
  u_status :: unit_status
  review_history :: "ReviewScore list"

datatype stage = Init | Fanning_out | Reviewing | Fixing | Editing | Assembling | Done | Run_failed

record RunState =
  stage :: stage
  round_counter :: nat
  max_review_rounds :: nat
  max_bullets :: nat
  window_end :: nat
  units :: "Unit list"

record Params =
  p_verticals :: "string list"
  p_max_review_rounds :: nat
  p_max_bullets :: nat
  p_window_end :: nat

datatype run_error = No_verticals

datatype draft_error = Too_many_bullets | Citation_invalid

text \<open>
  Modelled from the spec: the external collaborators of section 6, as functions the run is
  given. \<open>gather\<close> is the evidence the retrieval tools return for a vertical;
  \<open>propose\<close> is what the reasoning service drafts for a vertical in a round (with the IDs of
  the follow-up evidence), \<open>None\<close> when the Unit's attempt fails; \<open>score\<close> is the rubric
  score of a round; \<open>edit\<close> is the Editor's rewrite.
\<close>

record Service =
  gather :: "string \<Rightarrow> string list"
  propose :: "nat \<Rightarrow> string \<Rightarrow> (Draft \<times> string list) option"
  score :: "nat \<Rightarrow> string \<Rightarrow> ReviewScore"
  edit :: "string \<Rightarrow> Draft \<Rightarrow> Draft"

text \<open>
  Modelled from the spec: "every Bullet and the paragraph must cite at least one
  EvidenceItem ID that exists in the Unit's EvidencePack" (section 3).
\<close>

definition cites_valid :: "string list \<Rightarrow> string list \<Rightarrow> bool" where
  "cites_valid pack ids = list_ex (\<lambda>i. i \<in> set pack) ids"

definition citation_valid :: "string list \<Rightarrow> Draft \<Rightarrow> bool" where
  "citation_valid pack d =
     (cites_valid pack (paragraph_cites d) \<and> list_all (\<lambda>b. cites_valid pack (sb_cites b)) (draft_bullets d))"

text \<open>
  Modelled from the spec: the Section Drafter's validation (section 4.3): the bullet count
  is at most the configured maximum and every paragraph and bullet carries a valid
  evidence ID; a Draft that fails is rejected before the Reviewer sees it.
\<close>

definition validate_draft :: "nat \<Rightarrow> string list \<Rightarrow> Draft \<Rightarrow> draft_error + Draft" where
  "validate_draft limit pack d =
     (if limit < length (draft_bullets d) then Inl Too_many_bullets
      else if \<not> citation_valid pack d then Inl Citation_invalid
      else Inr d)"

text \<open>
  Modelled from the spec: one drafting attempt of a Unit (section 4.3). Follow-up evidence
  is appended to the pack; a failed attempt or a rejected Draft fails the Unit and leaves
  the last Draft in place.
\<close>

definition draft_unit :: "Service \<Rightarrow> nat \<Rightarrow> nat \<Rightarrow> Unit \<Rightarrow> Unit" where
  "draft_unit svc limit rnd u =
     (case propose svc rnd (vertical_id u) of
        None \<Rightarrow> u\<lparr>u_status := Failed\<rparr>
      | Some dm \<Rightarrow>
          (let pack = pack_ids u @ snd dm in
           case validate_draft limit pack (fst dm) of
             Inl _ \<Rightarrow> u\<lparr>pack_ids := pack, u_status := Failed\<rparr>
           | Inr d \<Rightarrow> u\<lparr>pack_ids := pack, current_draft := Some d, u_status := Under_review\<rparr>))"

text \<open>
  Modelled from the spec: the fan-out of one Unit (sections 4.1 and 4.2): gather the
  evidence, fail the Unit when there is none, draft otherwise.
\<close>

definition fan_out_unit :: "Service \<Rightarrow> nat \<Rightarrow> Unit \<Rightarrow> Unit" where
  "fan_out_unit svc limit u =
     (let u1 = u\<lparr>pack_ids := gather svc (vertical_id u), u_status := Drafting\<rparr> in
      if pack_ids u1 = [] then u1\<lparr>u_status := Failed\<rparr> else draft_unit svc limit 0 u1)"

text \<open>
  Modelled from the spec: the acceptance predicate of section 3: grounding at least 4,
  clarity at least 4, no blocking issue.
\<close>

definition acceptance :: "ReviewScore \<Rightarrow> bool" where
  "acceptance s = (4 \<le> grounding s \<and> 4 \<le> clarity s \<and> blocking_issues s = [])"

text \<open>
  Modelled from the spec: the Reviewer (section 4.4) scores the Units under review and
  either accepts a Unit or leaves it in need of a fix; the score joins the review history.
\<close>

definition review_unit :: "Service \<Rightarrow> nat \<Rightarrow> Unit \<Rightarrow> Unit" where
  "review_unit svc rnd u =
     (if u_status u = Under_review then
        (let s = score svc rnd (vertical_id u) in
         u\<lparr>review_history := review_history u @ [s],
           u_status := (if acceptance s then Accepted else Needs_fix)\<rparr>)
      else u)"

text \<open>
  Modelled from the spec: the Fix Router (section 4.5) sends a Unit that needs a fix back
  to drafting and re-invokes the Section Drafter for it.
\<close>

definition route_unit :: "Service \<Rightarrow> nat \<Rightarrow> nat \<Rightarrow> Unit \<Rightarrow> Unit" where
  "route_unit svc limit rnd u =
     (if u_status u = Needs_fix then draft_unit svc limit rnd (u\<lparr>u_status := Drafting\<rparr>) else u)"

text \<open>
  Modelled from the spec: the accept-what-you-have policy of section 4.1: a Unit still in
  need of a fix is moved to accepted with its last draft.
\<close>

definition force_accept :: "Unit \<Rightarrow> Unit" where
  "force_accept u = (if u_status u = Needs_fix then u\<lparr>u_status := Accepted\<rparr> else u)"

text \<open>
  Modelled from the spec: the Editor (section 4.6): the IDs cited after the edit are among
  those cited before, and no paragraph or bullet is left without a citation; otherwise the
  Editor signals a blocking error and the Unit fails.
\<close>

definition cited_ids :: "Draft \<Rightarrow> string list" where
  "cited_ids d = paragraph_cites d @ concat (map sb_cites (draft_bullets d))"

definition harmonize_unit :: "Service \<Rightarrow> Unit \<Rightarrow> Unit" where
  "harmonize_unit svc u =
     (if u_status u = Accepted then
        (case current_draft u of
           None \<Rightarrow> u\<lparr>u_status := Failed\<rparr>
         | Some d \<Rightarrow>
             (let d' = edit svc (vertical_id u) d in
              if list_all (\<lambda>i. i \<in> set (cited_ids d)) (cited_ids d') \<and> citation_valid (pack_ids u) d'
              then u\<lparr>current_draft := Some d'\<rparr>
              else u\<lparr>u_status := Failed\<rparr>))
      else u)"

text \<open>
  Modelled from the spec: \<open>start\<close> of section 4.1: at least one vertical is requested, an
  end of the time window later than now is corrected to now, and the run state is returned
  in the fan-out stage with the round counter at zero.
\<close>

definition start :: "nat \<Rightarrow> Params \<Rightarrow> run_error + RunState" where
  "start now p =
     (if p_verticals p = [] then Inl No_verticals
      else Inr \<lparr> stage = Fanning_out, round_counter = 0,
                 max_review_rounds = p_max_review_rounds p, max_bullets = p_max_bullets p,
                 window_end = min (p_window_end p) now,
                 units = map (\<lambda>v. \<lparr> vertical_id = v, current_draft = None, pack_ids = [],
                                     u_status = Pending, review_history = [] \<rparr>) (p_verticals p) \<rparr>)"

text \<open>
  Modelled from the spec: \<open>advance\<close> of section 4.1, one transition of the state machine.
  The round counter is incremented only at the transition from reviewing to fixing; in the
  fixing stage a round counter above the maximum forces every Unit still in need of a fix
  to accepted.
\<close>

definition advance :: "Service \<Rightarrow> RunState \<Rightarrow> RunState" where
  "advance svc st =
     (case stage st of
        Init \<Rightarrow> st\<lparr>stage := Fanning_out\<rparr>
      | Fanning_out \<Rightarrow>
          st\<lparr>units := map (fan_out_unit svc (max_bullets st)) (units st), stage := Reviewing\<rparr>
      | Reviewing \<Rightarrow>
          (let us = map (review_unit svc (round_counter st)) (units st) in
           if list_ex (\<lambda>u. u_status u = Needs_fix) us
           then st\<lparr>units := us, round_counter := round_counter st + 1, stage := Fixing\<rparr>
           else st\<lparr>units := us, stage := Editing\<rparr>)
      | Fixing \<Rightarrow>
          (if max_review_rounds st < round_counter st
           then st\<lparr>units := map force_accept (units st), stage := Editing\<rparr>
           else st\<lparr>units := map (route_unit svc (max_bullets st) (round_counter st)) (units st),
                   stage := Reviewing\<rparr>)
      | Editing \<Rightarrow> st\<lparr>units := map (harmonize_unit svc) (units st), stage := Assembling\<rparr>
      | Assembling \<Rightarrow> st\<lparr>stage := Done\<rparr>
      | Done \<Rightarrow> st
      | Run_failed \<Rightarrow> st)"

definition run_measure :: "RunState \<Rightarrow> nat" where
  "run_measure st =
     (case stage st of
        Init \<Rightarrow> 2 * (max_review_rounds st + 1 - round_counter st) + 7
      | Fanning_out \<Rightarrow> 2 * (max_review_rounds st + 1 - round_counter st) + 6
      | Reviewing \<Rightarrow> 2 * (max_review_rounds st + 1 - round_counter st) + 4
      | Fixing \<Rightarrow>
          (if max_review_rounds st < round_counter st then 3
           else 2 * (max_review_rounds st + 1 - round_counter st) + 5)
      | Editing \<Rightarrow> 2
      | Assembling \<Rightarrow> 1
      | Done \<Rightarrow> 0
      | Run_failed \<Rightarrow> 0)"

text \<open>
  Modelled from the spec: the driver that calls \<open>advance\<close> until the run is in a terminal
  state (\<open>done\<close> or \<open>failed\<close>).
\<close>

function run :: "Service \<Rightarrow> RunState \<Rightarrow> RunState" where
  "run svc st = (if stage st = Done \<or> stage st = Run_failed then st else run svc (advance svc st))"
  by pat_completeness auto
termination
  by (relation "measure (\<lambda>(svc, st). run_measure st)")
     (auto simp: advance_def run_measure_def Let_def split: stage.splits)

declare run.simps [simp del]

definition terminal_status :: "unit_status \<Rightarrow> bool" where
  "terminal_status s = (s = Accepted \<or> s = Failed)"

text \<open>A sample run: two verticals, one review round allowed, a reviewer that never accepts.\<close>

definition sample_draft :: Draft where
  "sample_draft =
     \<lparr> paragraph_text = ''Demand keeps rising.'', paragraph_cites = [''ev_0000000a''],
       draft_bullets = [\<lparr> sb_text = ''Equinix expands.'', sb_cites = [''ev_0000000b'', ''ev_ffffffff''] \<rparr>] \<rparr>"

definition ungrounded_draft :: Draft where
  "ungrounded_draft =
     \<lparr> paragraph_text = ''Demand keeps rising.'', paragraph_cites = [''ev_0000000a''],
       draft_bullets = [\<lparr> sb_text = ''Equinix expands.'', sb_cites = [] \<rparr>] \<rparr>"

definition strict_service :: Service where
  "strict_service =
     \<lparr> gather = (\<lambda>v. [''ev_0000000a'', ''ev_0000000b'']),
       propose = (\<lambda>rnd v. Some (sample_draft, [])),
       score = (\<lambda>rnd v. \<lparr> grounding = 5, clarity = 3, newsworthiness = 4, balance = 4,
                            voice_fit = 4, blocking_issues = [] \<rparr>),
       edit = (\<lambda>v d. d) \<rparr>"

definition sample_params :: Params where
  "sample_params =
     \<lparr> p_verticals = [''data_centers'', ''towers_wireless''], p_max_review_rounds = 1,
       p_max_bullets = 5, p_window_end = 20 \<rparr>"

section \<open>Reference notions used in the statements\<close>

text \<open>
  The display number the text of the specification gives an ID: one more than the number
  of different IDs that are read before its first occurrence.
\<close>

definition first_seen_rank :: "'a list \<Rightarrow> 'a \<Rightarrow> nat" where
  "first_seen_rank xs i = Suc (card (set (takeWhile (\<lambda>y. y \<noteq> i) xs)))"

definition sample_sections :: "string \<rightharpoonup> SectionData" where
  "sample_sections = [''data_centers'' \<mapsto> sample_section, ''towers_wireless'' \<mapsto> twin_section]"

definition sample_packs :: "string \<rightharpoonup> EvidencePack" where
  "sample_packs = [''data_centers'' \<mapsto> sample_pack, ''towers_wireless'' \<mapsto> twin_pack]"


subsection \<open>Sample states of the generation view\<close>

definition idle_state :: "Verticals \<Rightarrow> GenState" where
  "idle_state v =
     \<lparr> isGenerating = False, steps = allSteps, gen_error = None, lastNewsletterId = None,
       readyNewsletterId = None, generatedVerticalIds = [], debugEvents = [],
       debugSourcesOpen = False, verticals = v, startDate = ''2025-12-29'',
       endDate = ''2026-01-05'', sel_regions = [''UK'', ''EU''] \<rparr>"

definition sample_settings :: GenSettings where
  "sample_settings =
     \<lparr> activePlayers = [(''data_centers'', [''Equinix''])], reviewRounds = 2,
       searchProvider = ''openai'', strictDateFiltering = False \<rparr>"

definition sample_backend :: Backend where
  "sample_backend =
     \<lparr> stream_events =
         [\<lparr> ev_step = ''manager'', ev_message = ''start'', ev_status = ''start'' \<rparr>,
          \<lparr> ev_step = ''research_towers'', ev_message = ''towers'', ev_status = ''start'' \<rparr>,
          \<lparr> ev_step = ''research_data_centers'', ev_message = ''dc'', ev_status = ''start'' \<rparr>,
          \<lparr> ev_step = ''review'', ev_message = ''review'', ev_status = ''start'' \<rparr>],
       stream_result = Inl ''Failed to start generation'',
       plain_result = Inr \<lparr> resp_newsletter_id = ''newsletter_20260105_ab12cd'',
                              resp_status = ''completed'' \<rparr> \<rparr>"

definition no_verticals :: Verticals where
  "no_verticals = \<lparr> dataCenters = False, connectivity = False, towers = False \<rparr>"

definition dc_only :: Verticals where
  "dc_only = \<lparr> dataCenters = True, connectivity = False, towers = False \<rparr>"

text \<open>The flag a settings object holds for a player: \<open>settings[vertical]?.[player]\<close>.\<close>

definition flag_of :: "PlayerSettings \<Rightarrow> string \<Rightarrow> string \<Rightarrow> bool option" where
  "flag_of m v p = (case m v of None \<Rightarrow> None | Some g \<Rightarrow> g p)"

subsection \<open>Invariants of the run\<close>

text \<open>A Unit that is under review, in need of a fix or accepted holds a validated Draft.\<close>

definition unit_grounded :: "Unit \<Rightarrow> bool" where
  "unit_grounded u =
     (u_status u \<in> {Under_review, Needs_fix, Accepted}
        \<longrightarrow> (\<exists>d. current_draft u = Some d \<and> citation_valid (pack_ids u) d))"

text \<open>The statuses the Units can have in each stage, and the bound on the round counter.\<close>

definition stage_inv :: "RunState \<Rightarrow> bool" where
  "stage_inv st =
     (round_counter st \<le> max_review_rounds st + 1
      \<and> stage st \<noteq> Run_failed
      \<and> (case stage st of
            Init \<Rightarrow> round_counter st \<le> max_review_rounds st
          | Fanning_out \<Rightarrow> round_counter st \<le> max_review_rounds st
          | Reviewing \<Rightarrow>
              round_counter st \<le> max_review_rounds st
              \<and> list_all (\<lambda>u. u_status u \<in> {Under_review, Accepted, Failed}) (units st)
          | Fixing \<Rightarrow> list_all (\<lambda>u. u_status u \<in> {Needs_fix, Accepted, Failed}) (units st)
          | _ \<Rightarrow> list_all (\<lambda>u. terminal_status (u_status u)) (units st)))"

definition careless_service :: Service where
  "careless_service = strict_service\<lparr> propose := (\<lambda>rnd v. Some (ungrounded_draft, [])) \<rparr>"

definition sample_start :: RunState where
  "sample_start =
     \<lparr> stage = Fanning_out, round_counter = 0, max_review_rounds = 1, max_bullets = 5,
       window_end = 20,
       units = [\<lparr> vertical_id = ''data_centers'', current_draft = None, pack_ids = [],
                    u_status = Pending, review_history = [] \<rparr>,
                 \<lparr> vertical_id = ''towers_wireless'', current_draft = None, pack_ids = [],
                    u_status = Pending, review_history = [] \<rparr>] \<rparr>"

section \<open>Display numbers: first occurrences in reading order\<close>

lemma set_unique_in_order: "set (unique_in_order seen xs) = set xs - set seen"
  by (induction xs arbitrary: seen) auto





lemma set_new_Set: "set (new_Set xs) = set xs"
  by (simp add: new_Set_def set_unique_in_order)





lemma fold_append_concat: "fold (\<lambda>ids acc. acc @ ids) xss acc = acc @ concat xss"
  by (induction xss arbitrary: acc) auto










lemma allReferencedIds_reading_order:
  "allReferencedIds sec = bigPictureIds sec @ concat (map bullet_ids (bullets sec))"
  by (simp add: allReferencedIds_def bulletEvidenceIds_def fold_append_concat)






section \<open>Emitted evidence, citation targets and citation text\<close>

lemma set_referencedItems:
  "set (referencedItems sec p) =
     {e \<in> set (case p of None \<Rightarrow> [] | Some pk \<Rightarrow> items pk). evidence_id e \<in> set (allReferencedIds sec)}"
  by (auto simp: referencedItems_def uniqueIds_def set_new_Set)

lemma in_allReferencedIds:
  "i \<in> set (allReferencedIds sec) \<longleftrightarrow>
     i \<in> set (bigPictureIds sec) \<or> (\<exists>b \<in> set (bullets sec). i \<in> set (bullet_ids b))"
  by (auto simp: allReferencedIds_reading_order)

text \<open>
  C3. Every entry of the evidence list a converted section emits is the rendering of an
  item of that section's own pack, and the ID of that item is cited by the big-picture
  paragraph or by some bullet. A pack item that nothing cites is never emitted.
\<close>

theorem emitted_evidence_only_referenced:
  "\<forall>u \<in> set (evidence (convertSection secs packs sid)).
     \<exists>sec pack e. secs sid = Some sec \<and> packs sid = Some pack \<and> e \<in> set (items pack)
       \<and> u = toUIEvidence e \<and> ui_id u = evidence_id e
       \<and> (evidence_id e \<in> set (bigPictureIds sec)
            \<or> (\<exists>b \<in> set (bullets sec). evidence_id e \<in> set (bullet_ids b)))"
proof
  fix u assume u: "u \<in> set (evidence (convertSection secs packs sid))"
  show "\<exists>sec pack e. secs sid = Some sec \<and> packs sid = Some pack \<and> e \<in> set (items pack)
       \<and> u = toUIEvidence e \<and> ui_id u = evidence_id e
       \<and> (evidence_id e \<in> set (bigPictureIds sec)
            \<or> (\<exists>b \<in> set (bullets sec). evidence_id e \<in> set (bullet_ids b)))"
  proof (cases "secs sid")
    case None
    with u show ?thesis by (simp add: convertSection_def)
  next
    case (Some sec)
    with u have "u \<in> toUIEvidence ` set (referencedItems sec (packs sid))"
      by (simp add: convertSection_def referencedEvidence_def)
    then obtain e where e: "e \<in> set (referencedItems sec (packs sid))" "u = toUIEvidence e"
      by auto
    from e(1) obtain pack where pack: "packs sid = Some pack" "e \<in> set (items pack)"
      and ref: "evidence_id e \<in> set (allReferencedIds sec)"
      by (cases "packs sid") (auto simp: set_referencedItems)
    from e(2) have "ui_id u = evidence_id e" by (simp add: toUIEvidence_def)
    with Some pack e(2) ref show ?thesis
      unfolding in_allReferencedIds by blast
  qed
qed

lemma sample_evidence:
  "map ui_id (evidence (convertSection sample_sections sample_packs ''data_centers'')) =
     [''ev_aaaaaaa1'', ''ev_aaaaaaa2'', ''ev_aaaaaaa3'', ''ev_aaaaaaa4'', ''ev_aaaaaaa5'']"
  by code_simp

text \<open>
  In the sample section the item \<open>ev_aaaaaaa5\<close> is emitted and is cited by the first
  bullet; the pack item \<open>ev_bbbbbbb9\<close> is cited nowhere and is not emitted.
\<close>

theorem emitted_evidence_witness:
  "toUIEvidence (ev ''ev_aaaaaaa5'' ''five'')
     \<in> set (evidence (convertSection sample_sections sample_packs ''data_centers''))
   \<and> ev ''ev_aaaaaaa5'' ''five'' \<in> set (items sample_pack)
   \<and> ''ev_aaaaaaa5'' \<in> set (bullet_ids (hd (bullets sample_section)))
   \<and> ev ''ev_bbbbbbb9'' ''unused'' \<in> set (items sample_pack)
   \<and> ''ev_bbbbbbb9'' \<notin> set (map ui_id (evidence (convertSection sample_sections sample_packs ''data_centers'')))"
proof -
  have m: "toUIEvidence (ev ''ev_aaaaaaa5'' ''five'')
            \<in> set (evidence (convertSection sample_sections sample_packs ''data_centers''))"
    by code_simp
  have p: "ev ''ev_bbbbbbb9'' ''unused'' \<in> set (items sample_pack)"
    and q: "ev ''ev_aaaaaaa5'' ''five'' \<in> set (items sample_pack)"
    by (simp_all add: sample_pack_def)
  have b: "''ev_aaaaaaa5'' \<in> set (bullet_ids (hd (bullets sample_section)))"
    by code_simp
  from emitted_evidence_only_referenced [of sample_sections sample_packs "''data_centers''"] m
  have "\<exists>sec pack e. sample_sections ''data_centers'' = Some sec \<and> sample_packs ''data_centers'' = Some pack
        \<and> e \<in> set (items pack) \<and> toUIEvidence (ev ''ev_aaaaaaa5'' ''five'') = toUIEvidence e"
    by blast
  with m p q b show ?thesis unfolding sample_evidence by simp
qed




lemma first_seen_rank_pos: "0 < first_seen_rank xs i"
  by (simp add: first_seen_rank_def)






text \<open>
  The replacements of \<open>stripEvidenceIds\<close> each run once, so a later one can join the two
  halves of a marker: this text holds no marker, and its stripped form is one.
\<close>

lemma marker_formed_by_stripping:
  "\<not> contains_marker ''ev_1234()5678'' \<and> stripEvidenceIds ''ev_1234()5678'' = ''ev_12345678''
   \<and> contains_marker (stripEvidenceIds ''ev_1234()5678'')"
  by code_simp



section \<open>Properties of the generation view\<close>

text \<open>
  C7. When no vertical is selected, \<open>handleGenerate\<close> shows the error toast and returns:
  neither call of the API client is made and the state of the view is left as it was.
\<close>

theorem no_vertical_no_request:
  assumes "\<not> dataCenters (verticals st)" and "\<not> connectivity (verticals st)"
    and "\<not> towers (verticals st)"
  shows "handleGenerate cfg be st
           = ([Toast ''Error'' ''Select at least one sector to generate a newsletter''
                 (Some ''destructive'')], st)
         \<and> \<not> list_ex is_request (fst (handleGenerate cfg be st))
         \<and> list_ex is_error_toast (fst (handleGenerate cfg be st))"
  using assms by (simp add: handleGenerate_def is_request_def is_error_toast_def)

text \<open>
  The idle view with nothing selected; with data centres selected the same call does send
  a request.
\<close>

theorem no_vertical_no_request_witness:
  "\<not> dataCenters (verticals (idle_state no_verticals))
   \<and> \<not> connectivity (verticals (idle_state no_verticals))
   \<and> \<not> towers (verticals (idle_state no_verticals))
   \<and> fst (handleGenerate sample_settings sample_backend (idle_state no_verticals))
       = [Toast ''Error'' ''Select at least one sector to generate a newsletter'' (Some ''destructive'')]
   \<and> snd (handleGenerate sample_settings sample_backend (idle_state no_verticals)) = idle_state no_verticals
   \<and> list_ex is_request (fst (handleGenerate sample_settings sample_backend (idle_state dc_only)))"
proof -
  have a: "\<not> dataCenters (verticals (idle_state no_verticals))"
    and b: "\<not> connectivity (verticals (idle_state no_verticals))"
    and c: "\<not> towers (verticals (idle_state no_verticals))"
    by (simp_all add: idle_state_def no_verticals_def)
  have d: "list_ex is_request (fst (handleGenerate sample_settings sample_backend (idle_state dc_only)))"
    by (simp add: handleGenerate_def idle_state_def dc_only_def sample_backend_def is_request_def Let_def)
  from no_vertical_no_request [OF a b c, of sample_settings sample_backend] a b c d
  show ?thesis by simp
qed

lemma step_ids_updateStep: "map step_id (updateStep sid s prev) = map step_id prev"
  by (simp add: updateStep_def)

lemma step_ids_handleStatusUpdate: "map step_id (handleStatusUpdate e prev) = map step_id prev"
  by (simp add: handleStatusUpdate_def Let_def step_ids_updateStep)

lemma step_ids_events: "map step_id (fold handleStatusUpdate es prev) = map step_id prev"
  by (induction es arbitrary: prev) (simp_all add: step_ids_handleStatusUpdate)

lemma step_ids_fallback:
  "map step_id (fold (\<lambda>step ss. updateStep (step_id step) St_complete
                                    (updateStep (step_id step) St_active ss)) fs prev)
     = map step_id prev"
  by (induction fs arbitrary: prev) (simp_all add: step_ids_updateStep)

lemma step_ids_handleGenerate:
  assumes "dataCenters (verticals st) \<or> connectivity (verticals st) \<or> towers (verticals st)"
  shows "map step_id (steps (snd (handleGenerate cfg be st))) = map step_id (getFilteredSteps (verticals st))"
  using assms
  by (auto simp: handleGenerate_def Let_def finish_ok_def step_ids_events step_ids_fallback comp_def
      split: sum.splits)

lemma filtered_step_ids:
  "map step_id (getFilteredSteps v) =
     [''manager''] @ (if dataCenters v then [''research_dc''] else [])
       @ (if connectivity v then [''research_cf''] else [])
       @ (if towers v then [''research_tw''] else []) @ [''review'', ''editor'', ''assemble'']"
  by (simp add: getFilteredSteps_def allSteps_def)

text \<open>
  C8. The step list of a generation holds the research step of a vertical exactly when
  that vertical is selected. Status events of the stream and the simulated progress of
  the fallback only rewrite the status of steps in the list, so the identifiers of the
  list stay those of the filtered steps through any sequence of events and to the end of
  \<open>handleGenerate\<close>: a research step of an unselected vertical is never in the list, hence
  never shown and never active.
\<close>

theorem only_selected_research_steps:
  "(''research_dc'' \<in> set (map step_id (getFilteredSteps v))) = dataCenters v
   \<and> (''research_cf'' \<in> set (map step_id (getFilteredSteps v))) = connectivity v
   \<and> (''research_tw'' \<in> set (map step_id (getFilteredSteps v))) = towers v
   \<and> map step_id (fold handleStatusUpdate events (map (\<lambda>s. s\<lparr>status := St_pending\<rparr>) (getFilteredSteps v)))
       = map step_id (getFilteredSteps v)
   \<and> (dataCenters (verticals st) \<or> connectivity (verticals st) \<or> towers (verticals st)
        \<longrightarrow> map step_id (steps (snd (handleGenerate cfg be st)))
              = map step_id (getFilteredSteps (verticals st)))"
proof (intro conjI)
  show "(''research_dc'' \<in> set (map step_id (getFilteredSteps v))) = dataCenters v"
    by (simp add: filtered_step_ids)
  show "(''research_cf'' \<in> set (map step_id (getFilteredSteps v))) = connectivity v"
    by (simp add: filtered_step_ids)
  show "(''research_tw'' \<in> set (map step_id (getFilteredSteps v))) = towers v"
    by (simp add: filtered_step_ids)
  show "map step_id (fold handleStatusUpdate events (map (\<lambda>s. s\<lparr>status := St_pending\<rparr>) (getFilteredSteps v)))
       = map step_id (getFilteredSteps v)"
    by (simp add: step_ids_events comp_def)
  show "dataCenters (verticals st) \<or> connectivity (verticals st) \<or> towers (verticals st)
        \<longrightarrow> map step_id (steps (snd (handleGenerate cfg be st)))
              = map step_id (getFilteredSteps (verticals st))"
    using step_ids_handleGenerate by blast
qed

text \<open>
  Only data centres selected, and a stream that reports a start of the towers research all
  the same: the list has no towers step before or after, and no step is active for it.
\<close>

theorem only_selected_research_steps_witness:
  "(dataCenters (verticals (idle_state dc_only)) \<or> connectivity (verticals (idle_state dc_only))
      \<or> towers (verticals (idle_state dc_only)))
   \<and> map step_id (steps (snd (handleGenerate sample_settings sample_backend (idle_state dc_only))))
       = [''manager'', ''research_dc'', ''review'', ''editor'', ''assemble'']
   \<and> map step_id (fold handleStatusUpdate (stream_events sample_backend)
                     (map (\<lambda>s. s\<lparr>status := St_pending\<rparr>) (getFilteredSteps dc_only)))
       = [''manager'', ''research_dc'', ''review'', ''editor'', ''assemble'']
   \<and> ''research_tw'' \<notin> set (map step_id (getFilteredSteps dc_only))"
proof -
  have sel: "dataCenters (verticals (idle_state dc_only)) \<or> connectivity (verticals (idle_state dc_only))
      \<or> towers (verticals (idle_state dc_only))"
    by (simp add: idle_state_def dc_only_def)
  have v: "verticals (idle_state dc_only) = dc_only" by (simp add: idle_state_def)
  have ids: "map step_id (getFilteredSteps dc_only) = [''manager'', ''research_dc'', ''review'', ''editor'', ''assemble'']"
    by (simp add: filtered_step_ids dc_only_def)
  note inst = only_selected_research_steps
    [of dc_only "stream_events sample_backend" "idle_state dc_only" sample_settings sample_backend]
  from inst sel v ids show ?thesis by (simp add: dc_only_def)
qed

section \<open>Properties of the research settings\<close>

lemma fill_players:
  "fst (fold (\<lambda>player pn. if fst pn player = None then ((fst pn)(player \<mapsto> True), True) else pn) ps (g, n)) p
     = (case g p of Some b \<Rightarrow> Some b | None \<Rightarrow> if p \<in> set ps then Some True else None)"
  by (induction ps arbitrary: g n) (auto split: option.splits)

lemma migrate_vertical_flag:
  "flag_of (fst (migrate_vertical (v, ps) (parsed, n))) v' p
     = (if v' = v
        then (case flag_of parsed v p of Some b \<Rightarrow> Some b
              | None \<Rightarrow> if p \<in> set ps then Some True else None)
        else flag_of parsed v' p)"
  by (auto simp: migrate_vertical_def flag_of_def Let_def fill_players split: option.splits)

lemma migrate_vertical_defined:
  "(fst (migrate_vertical (v, ps) (parsed, n)) v' = None) = (v' \<noteq> v \<and> parsed v' = None)"
  by (auto simp: migrate_vertical_def Let_def)

lemma migrate_all_flag:
  "distinct (map fst dp) \<Longrightarrow>
   flag_of (fst (fold migrate_vertical dp (parsed, n))) v p
     = (case map_of dp v of
          None \<Rightarrow> flag_of parsed v p
        | Some ps \<Rightarrow> (case flag_of parsed v p of Some b \<Rightarrow> Some b
                      | None \<Rightarrow> if p \<in> set ps then Some True else None))"
proof (induction dp arbitrary: parsed n)
  case Nil
  then show ?case by simp
next
  case (Cons a dp)
  obtain v0 ps0 where a: "a = (v0, ps0)" by (cases a)
  obtain parsed' n' where m: "migrate_vertical (v0, ps0) (parsed, n) = (parsed', n')"
    by (cases "migrate_vertical (v0, ps0) (parsed, n)")
  from Cons.prems a have d: "distinct (map fst dp)" and notin: "v0 \<notin> fst ` set dp" by auto
  have step: "\<And>v' p. flag_of parsed' v' p
     = (if v' = v0
        then (case flag_of parsed v0 p of Some b \<Rightarrow> Some b
              | None \<Rightarrow> if p \<in> set ps0 then Some True else None)
        else flag_of parsed v' p)"
    using migrate_vertical_flag [of v0 ps0 parsed n] m by simp
  from notin have none: "map_of dp v0 = None"
    by (simp add: map_of_eq_None_iff)
  show ?case
  proof (cases "v = v0")
    case True
    have "flag_of parsed' v0 p = (case flag_of parsed v0 p of Some b \<Rightarrow> Some b
              | None \<Rightarrow> if p \<in> set ps0 then Some True else None)"
      using step [of v0 p] by simp
    with True Cons.IH [OF d, of parsed' n'] a m none show ?thesis by (simp split: option.splits)
  next
    case False
    have "flag_of parsed' v p = flag_of parsed v p"
      using step [of v p] False by simp
    with False Cons.IH [OF d, of parsed' n'] a m show ?thesis by (simp split: option.splits)
  qed
qed

lemma migrate_all_defined:
  "v \<in> fst ` set dp \<Longrightarrow> fst (fold migrate_vertical dp (parsed, n)) v \<noteq> None"
proof (induction dp arbitrary: parsed n rule: rev_induct)
  case Nil
  then show ?case by simp
next
  case (snoc a dp)
  obtain v0 ps0 where a: "a = (v0, ps0)" by (cases a)
  obtain parsed' n' where m: "fold migrate_vertical dp (parsed, n) = (parsed', n')"
    by (cases "fold migrate_vertical dp (parsed, n)")
  show ?case
  proof (cases "v = v0")
    case True
    have "fst (migrate_vertical (v0, ps0) (parsed', n')) v0 \<noteq> None"
      by (simp add: migrate_vertical_defined)
    with True a m show ?thesis by simp
  next
    case False
    with snoc.prems a have "v \<in> fst ` set dp" by auto
    from snoc.IH [OF this, of parsed n] m have "parsed' v \<noteq> None" by simp
    then have "fst (migrate_vertical (v0, ps0) (parsed', n')) v \<noteq> None"
      by (simp add: migrate_vertical_defined)
    with a m show ?thesis by simp
  qed
qed

lemma distinct_default_verticals: "distinct (map fst DEFAULT_PLAYERS)"
  by (simp add: DEFAULT_PLAYERS_def)

lemma enable_all_players:
  "fold (\<lambda>player m. m(player \<mapsto> True)) ps m0 p = (if p \<in> set ps then Some True else m0 p)"
  by (induction ps arbitrary: m0) auto

lemma fold_defaults:
  "distinct (map fst dp) \<Longrightarrow>
   fold (\<lambda>vp defaults. defaults(fst vp \<mapsto> F (snd vp))) dp d0 v
     = (case map_of dp v of Some ps \<Rightarrow> Some (F ps) | None \<Rightarrow> d0 v)"
proof (induction dp arbitrary: d0)
  case Nil
  then show ?case by simp
next
  case (Cons a dp)
  then have "map_of dp (fst a) = None"
    by (simp add: map_of_eq_None_iff)
  with Cons show ?case by (cases a) (auto split: option.splits)
qed

lemma default_settings_at:
  "(v, ps) \<in> set DEFAULT_PLAYERS \<Longrightarrow>
   default_settings v = Some (fold (\<lambda>player m. m(player \<mapsto> True)) ps Map.empty)"
  unfolding default_settings_def
  using fold_defaults [OF distinct_default_verticals, of "\<lambda>ps. fold (\<lambda>player m. m(player \<mapsto> True)) ps Map.empty" Map.empty v]
    distinct_default_verticals
  by simp

lemma default_settings_flag:
  "(v, ps) \<in> set DEFAULT_PLAYERS \<Longrightarrow> p \<in> set ps \<Longrightarrow> flag_of default_settings v p = Some True"
  by (simp add: default_settings_at flag_of_def enable_all_players)

lemma default_settings_defined:
  "(v, ps) \<in> set DEFAULT_PLAYERS \<Longrightarrow> default_settings v \<noteq> None"
  by (simp add: default_settings_at)

lemma stored_name_fun:
  "stored_name w v = display_name (case getPlayerNames w v of None \<Rightarrow> Map.empty | Some n \<Rightarrow> n)"
  by (rule ext) (simp add: stored_name_def)

lemma settings_flag_in_browser:
  assumes vp: "(v, ps) \<in> set DEFAULT_PLAYERS" and p: "p \<in> set ps"
  shows "flag_of (fst (getPlayerSettings (Some b))) v p
           = (case stored_flag (Some b) v p of Some bl \<Rightarrow> Some bl | None \<Rightarrow> Some True)"
proof (cases "settings_item b")
  case (Parsed parsed)
  from vp have mo: "map_of DEFAULT_PLAYERS v = Some ps"
    using distinct_default_verticals by simp
  have sf: "stored_flag (Some b) v p = flag_of parsed v p"
    using Parsed by (simp add: stored_flag_def flag_of_def)
  from migrate_all_flag [OF distinct_default_verticals, of parsed False v p] mo p sf Parsed
  show ?thesis by (simp add: getPlayerSettings_def Let_def split: option.splits)
next
  case Missing
  with default_settings_flag [OF vp p] show ?thesis
    by (simp add: getPlayerSettings_def stored_flag_def)
next
  case Malformed
  with default_settings_flag [OF vp p] show ?thesis
    by (simp add: getPlayerSettings_def stored_flag_def)
qed

lemma settings_defined_in_browser:
  assumes vp: "(v, ps) \<in> set DEFAULT_PLAYERS"
  shows "fst (getPlayerSettings (Some b)) v \<noteq> None"
proof (cases "settings_item b")
  case (Parsed parsed)
  from vp have "v \<in> fst ` set DEFAULT_PLAYERS" by force
  from migrate_all_defined [OF this, of parsed False] Parsed show ?thesis
    by (simp add: getPlayerSettings_def Let_def)
next
  case Missing
  with default_settings_defined [OF vp] show ?thesis by (simp add: getPlayerSettings_def)
next
  case Malformed
  with default_settings_defined [OF vp] show ?thesis by (simp add: getPlayerSettings_def)
qed

lemma names_after_settings: "getPlayerNames (snd (getPlayerSettings w)) = getPlayerNames w"
  by (auto simp: getPlayerNames_def getPlayerSettings_def Let_def split: option.splits stored.splits)

lemma active_players_in_browser:
  "fst (getActivePlayers (Some b))
     = map (\<lambda>vp. (fst vp, map (stored_name (Some b) (fst vp))
                          (filter (\<lambda>p. stored_flag (Some b) (fst vp) p \<noteq> Some False) (snd vp))))
         DEFAULT_PLAYERS"
proof -
  have "\<And>vp. vp \<in> set DEFAULT_PLAYERS \<Longrightarrow>
      filter (\<lambda>player. (case fst (getPlayerSettings (Some b)) (fst vp) of None \<Rightarrow> Map.empty | Some s \<Rightarrow> s) player = Some True) (snd vp)
      = filter (\<lambda>p. stored_flag (Some b) (fst vp) p \<noteq> Some False) (snd vp)"
  proof -
    fix vp assume vp: "vp \<in> set DEFAULT_PLAYERS"
    show "filter (\<lambda>player. (case fst (getPlayerSettings (Some b)) (fst vp) of None \<Rightarrow> Map.empty | Some s \<Rightarrow> s) player = Some True) (snd vp)
      = filter (\<lambda>p. stored_flag (Some b) (fst vp) p \<noteq> Some False) (snd vp)"
    proof (rule filter_cong [OF refl])
      fix p assume p: "p \<in> set (snd vp)"
      from vp have vp': "(fst vp, snd vp) \<in> set DEFAULT_PLAYERS" by simp
      have "(case fst (getPlayerSettings (Some b)) (fst vp) of None \<Rightarrow> Map.empty | Some s \<Rightarrow> s) p
              = flag_of (fst (getPlayerSettings (Some b))) (fst vp) p"
        by (simp add: flag_of_def split: option.splits)
      with settings_flag_in_browser [OF vp' p, of b]
      show "((case fst (getPlayerSettings (Some b)) (fst vp) of None \<Rightarrow> Map.empty | Some s \<Rightarrow> s) p = Some True)
              = (stored_flag (Some b) (fst vp) p \<noteq> Some False)"
        by (auto split: option.splits)
    qed
  qed
  note eq = this
  have "fst (getActivePlayers (Some b))
     = map (\<lambda>vp. (fst vp,
                    map (display_name (case getPlayerNames (Some b) (fst vp) of None \<Rightarrow> Map.empty | Some n \<Rightarrow> n))
                      (filter (\<lambda>player. (case fst (getPlayerSettings (Some b)) (fst vp) of
                                           None \<Rightarrow> Map.empty | Some s \<Rightarrow> s) player = Some True)
                         (snd vp))))
         DEFAULT_PLAYERS"
    by (simp only: getActivePlayers_def Let_def fst_conv names_after_settings)
  also have "\<dots> = map (\<lambda>vp. (fst vp, map (stored_name (Some b) (fst vp))
                          (filter (\<lambda>p. stored_flag (Some b) (fst vp) p \<noteq> Some False) (snd vp))))
         DEFAULT_PLAYERS"
  proof (rule map_cong [OF refl])
    fix vp assume "vp \<in> set DEFAULT_PLAYERS"
    from eq [OF this]
    show "(fst vp,
            map (display_name (case getPlayerNames (Some b) (fst vp) of None \<Rightarrow> Map.empty | Some n \<Rightarrow> n))
              (filter (\<lambda>player. (case fst (getPlayerSettings (Some b)) (fst vp) of
                                   None \<Rightarrow> Map.empty | Some s \<Rightarrow> s) player = Some True)
                 (snd vp)))
          = (fst vp, map (stored_name (Some b) (fst vp))
                          (filter (\<lambda>p. stored_flag (Some b) (fst vp) p \<noteq> Some False) (snd vp)))"
      by (simp only: stored_name_fun)
  qed
  finally show ?thesis .
qed

lemma active_players_by_returned_flags:
  "fst (getActivePlayers w)
     = map (\<lambda>vp. (fst vp, map (stored_name w (fst vp))
                          (filter (\<lambda>p. flag_of (fst (getPlayerSettings w)) (fst vp) p = Some True) (snd vp))))
         DEFAULT_PLAYERS"
proof -
  have "\<And>m v. (case m v of None \<Rightarrow> Map.empty | Some s \<Rightarrow> s) = flag_of m v"
    by (rule ext) (simp add: flag_of_def split: option.splits)
  then show ?thesis
    by (simp only: getActivePlayers_def Let_def fst_conv names_after_settings stored_name_fun)
qed

lemma no_window_no_players:
  "fst (getActivePlayers None) = map (\<lambda>vp. (fst vp, [])) DEFAULT_PLAYERS"
  by (simp add: getActivePlayers_def getPlayerSettings_def Let_def)

text \<open>
  C10, as amended. For each vertical, \<open>getActivePlayers\<close> returns precisely the default
  players whose flag in the settings that \<open>getPlayerSettings\<close> returns is true, each
  under its custom name when a non-empty one is stored. In a browser these are the default
  players whose stored flag is not false: a flag missing from the storage is migrated to
  true, and missing or unreadable storage enables every player. In a browser
  \<open>getPlayerSettings\<close> returns a map that gives every default player of every vertical a
  boolean. Without a window \<open>getPlayerSettings\<close> returns the empty object and no player
  is active.
\<close>

theorem active_players_follow_migrated_settings:
  "fst (getActivePlayers w)
     = map (\<lambda>vp. (fst vp, map (stored_name w (fst vp))
                          (filter (\<lambda>p. flag_of (fst (getPlayerSettings w)) (fst vp) p = Some True) (snd vp))))
         DEFAULT_PLAYERS
   \<and> fst (getActivePlayers (Some b))
     = map (\<lambda>vp. (fst vp, map (stored_name (Some b) (fst vp))
                          (filter (\<lambda>p. stored_flag (Some b) (fst vp) p \<noteq> Some False) (snd vp))))
         DEFAULT_PLAYERS
   \<and> (\<forall>vp \<in> set DEFAULT_PLAYERS. \<forall>p \<in> set (snd vp).
         \<exists>f bl. fst (getPlayerSettings (Some b)) (fst vp) = Some f \<and> f p = Some bl)
   \<and> fst (getPlayerSettings None) = Map.empty
   \<and> fst (getActivePlayers None) = map (\<lambda>vp. (fst vp, [])) DEFAULT_PLAYERS"
proof (intro conjI ballI)
  show "fst (getActivePlayers w)
     = map (\<lambda>vp. (fst vp, map (stored_name w (fst vp))
                          (filter (\<lambda>p. flag_of (fst (getPlayerSettings w)) (fst vp) p = Some True) (snd vp))))
         DEFAULT_PLAYERS"
    by (rule active_players_by_returned_flags)
  show "fst (getActivePlayers (Some b))
     = map (\<lambda>vp. (fst vp, map (stored_name (Some b) (fst vp))
                          (filter (\<lambda>p. stored_flag (Some b) (fst vp) p \<noteq> Some False) (snd vp))))
         DEFAULT_PLAYERS"
    by (rule active_players_in_browser)
  show "fst (getPlayerSettings None) = Map.empty"
    by (simp add: getPlayerSettings_def)
  show "fst (getActivePlayers None) = map (\<lambda>vp. (fst vp, [])) DEFAULT_PLAYERS"
    by (rule no_window_no_players)
next
  fix vp p assume vp: "vp \<in> set DEFAULT_PLAYERS" and p: "p \<in> set (snd vp)"
  then have vp': "(fst vp, snd vp) \<in> set DEFAULT_PLAYERS" by simp
  from settings_defined_in_browser [OF vp', of b]
  obtain f where f: "fst (getPlayerSettings (Some b)) (fst vp) = Some f" by auto
  from settings_flag_in_browser [OF vp' p, of b] f
  obtain bl where "f p = Some bl" by (auto simp: flag_of_def split: option.splits)
  with f show "\<exists>f bl. fst (getPlayerSettings (Some b)) (fst vp) = Some f \<and> f p = Some bl" by blast
qed

text \<open>
  A storage that holds two flags for the data centres (Equinix off, Switch on) and a custom
  name for Switch: Equinix alone is left out.
\<close>

theorem active_players_witness:
  "(''data_centers'',
      [''Equinix'', ''Digital Realty'', ''CyrusOne'', ''QTS Data Centers'',
       ''NTT Global Data Centers'', ''Iron Mountain Data Centers'', ''Switch'',
       ''STACK Infrastructure'', ''Google Cloud'', ''Amazon Web Services (AWS)'']) \<in> set DEFAULT_PLAYERS
   \<and> flag_of (fst (getPlayerSettings (Some sample_browser))) ''data_centers'' ''Equinix'' = Some False
   \<and> flag_of (fst (getPlayerSettings (Some sample_browser))) ''data_centers'' ''CyrusOne'' = Some True
   \<and> players_of (fst (getActivePlayers (Some sample_browser))) ''data_centers''
       = [''Digital Realty'', ''CyrusOne'', ''QTS Data Centers'', ''NTT Global Data Centers'',
          ''Iron Mountain Data Centers'', ''Switch Inc'', ''STACK Infrastructure'', ''Google Cloud'',
          ''Amazon Web Services (AWS)'']
   \<and> players_of (fst (getActivePlayers None)) ''data_centers'' = []"
proof -
  let ?dc = "(''data_centers'',
      [''Equinix'', ''Digital Realty'', ''CyrusOne'', ''QTS Data Centers'',
       ''NTT Global Data Centers'', ''Iron Mountain Data Centers'', ''Switch'',
       ''STACK Infrastructure'', ''Google Cloud'', ''Amazon Web Services (AWS)''])"
  note inst = active_players_follow_migrated_settings [of "Some sample_browser" sample_browser]
  have mem: "?dc \<in> set DEFAULT_PLAYERS" by (simp add: DEFAULT_PLAYERS_def)
  have e: "flag_of (fst (getPlayerSettings (Some sample_browser))) ''data_centers'' ''Equinix'' = Some False"
    by code_simp
  have c: "flag_of (fst (getPlayerSettings (Some sample_browser))) ''data_centers'' ''CyrusOne'' = Some True"
    by code_simp
  have rhs: "players_of (map (\<lambda>vp. (fst vp, map (stored_name (Some sample_browser) (fst vp))
                          (filter (\<lambda>p. stored_flag (Some sample_browser) (fst vp) p \<noteq> Some False) (snd vp))))
         DEFAULT_PLAYERS) ''data_centers''
       = [''Digital Realty'', ''CyrusOne'', ''QTS Data Centers'', ''NTT Global Data Centers'',
          ''Iron Mountain Data Centers'', ''Switch Inc'', ''STACK Infrastructure'', ''Google Cloud'',
          ''Amazon Web Services (AWS)'']"
    by code_simp
  have none: "players_of (map (\<lambda>vp. (fst vp, [])) DEFAULT_PLAYERS) ''data_centers'' = []"
    by code_simp
  from inst have a: "fst (getActivePlayers (Some sample_browser))
     = map (\<lambda>vp. (fst vp, map (stored_name (Some sample_browser) (fst vp))
                          (filter (\<lambda>p. stored_flag (Some sample_browser) (fst vp) p \<noteq> Some False) (snd vp))))
         DEFAULT_PLAYERS"
    and n: "fst (getActivePlayers None) = map (\<lambda>vp. (fst vp, [])) DEFAULT_PLAYERS"
    by blast+
  show ?thesis
    unfolding a n using mem e c rhs none by simp
qed

text \<open>
  C10 as stated fails. The same storage holds no flag for Digital Realty, and Digital
  Realty is active; and without a window \<open>getPlayerSettings\<close> returns an object with no
  entry for any vertical.
\<close>

theorem absent_flag_player_is_active:
  "stored_flag (Some sample_browser) ''data_centers'' ''Digital Realty'' = None
   \<and> ''Digital Realty'' \<in> set (players_of (fst (getActivePlayers (Some sample_browser))) ''data_centers'')
   \<and> fst (getPlayerSettings None) ''data_centers'' = None"
proof (intro conjI)
  show "stored_flag (Some sample_browser) ''data_centers'' ''Digital Realty'' = None"
    by code_simp
  show "''Digital Realty'' \<in> set (players_of (fst (getActivePlayers (Some sample_browser))) ''data_centers'')"
    by code_simp
  show "fst (getPlayerSettings None) ''data_centers'' = None"
    by (simp add: getPlayerSettings_def)
qed

section \<open>Properties of the orchestration core\<close>

text \<open>The grounding of a Draft, stated on sets.\<close>

lemma cites_valid_iff: "cites_valid pack ids \<longleftrightarrow> (\<exists>i \<in> set ids. i \<in> set pack)"
  by (simp add: cites_valid_def list_ex_iff)

lemma citation_valid_iff:
  "citation_valid pack d \<longleftrightarrow>
     (\<exists>i \<in> set (paragraph_cites d). i \<in> set pack)
     \<and> (\<forall>b \<in> set (draft_bullets d). \<exists>i \<in> set (sb_cites b). i \<in> set pack)"
  by (simp add: citation_valid_def cites_valid_iff list_all_iff)

lemma draft_unit_grounded: "unit_grounded (draft_unit svc limit rnd u)"
  by (auto simp: unit_grounded_def draft_unit_def validate_draft_def Let_def
      split: option.splits sum.splits if_splits)

lemma fan_out_unit_grounded: "unit_grounded (fan_out_unit svc limit u)"
  using draft_unit_grounded
  by (auto simp: fan_out_unit_def Let_def unit_grounded_def)

lemma review_unit_grounded: "unit_grounded u \<Longrightarrow> unit_grounded (review_unit svc rnd u)"
  by (auto simp: unit_grounded_def review_unit_def Let_def)

lemma route_unit_grounded: "unit_grounded u \<Longrightarrow> unit_grounded (route_unit svc limit rnd u)"
  using draft_unit_grounded by (auto simp: route_unit_def)

lemma force_accept_grounded: "unit_grounded u \<Longrightarrow> unit_grounded (force_accept u)"
  by (auto simp: unit_grounded_def force_accept_def)

lemma harmonize_unit_grounded: "unit_grounded u \<Longrightarrow> unit_grounded (harmonize_unit svc u)"
  by (auto simp: unit_grounded_def harmonize_unit_def Let_def split: option.splits)

lemma advance_grounded:
  "\<forall>u \<in> set (units st). unit_grounded u \<Longrightarrow> \<forall>u \<in> set (units (advance svc st)). unit_grounded u"
  by (cases "stage st")
     (auto simp: advance_def Let_def fan_out_unit_grounded review_unit_grounded route_unit_grounded
        force_accept_grounded harmonize_unit_grounded)

lemma start_grounded:
  "start now p = Inr st \<Longrightarrow> \<forall>u \<in> set (units st). unit_grounded u"
  by (auto simp: start_def unit_grounded_def split: if_splits)

lemma reachable_grounded:
  "start now p = Inr st \<Longrightarrow> \<forall>u \<in> set (units ((advance svc ^^ n) st)). unit_grounded u"
  by (induction n) (simp_all add: start_grounded advance_grounded)

lemma run_terminal: "stage st = Done \<or> stage st = Run_failed \<Longrightarrow> run svc st = st"
  by (subst run.simps) simp

lemma run_step: "\<not> (stage st = Done \<or> stage st = Run_failed) \<Longrightarrow> run svc st = run svc (advance svc st)"
  by (subst run.simps) simp

lemma run_is_iterated_advance: "\<exists>k. run svc st = (advance svc ^^ k) st"
proof (induction svc st rule: run.induct)
  case (1 svc st)
  show ?case
  proof (cases "stage st = Done \<or> stage st = Run_failed")
    case True
    then have "run svc st = (advance svc ^^ 0) st" by (simp add: run_terminal)
    then show ?thesis by blast
  next
    case False
    with "1.IH" obtain k where "run svc (advance svc st) = (advance svc ^^ k) (advance svc st)"
      by blast
    with False have "run svc st = (advance svc ^^ Suc k) st"
      by (simp add: funpow_swap1 run_step)
    then show ?thesis by blast
  qed
qed

lemma run_stops: "stage (run svc st) = Done \<or> stage (run svc st) = Run_failed"
proof (induction svc st rule: run.induct)
  case (1 svc st)
  show ?case
  proof (cases "stage st = Done \<or> stage st = Run_failed")
    case True
    then show ?thesis by (simp add: run_terminal)
  next
    case False
    with "1.IH" show ?thesis by (simp add: run_step)
  qed
qed

lemma draft_unit_status:
  "u_status (draft_unit svc limit rnd u) = Failed \<or> u_status (draft_unit svc limit rnd u) = Under_review"
  by (auto simp: draft_unit_def Let_def split: option.splits sum.splits)

lemma fan_out_unit_status:
  "u_status (fan_out_unit svc limit u) \<in> {Under_review, Accepted, Failed}"
  using draft_unit_status [of svc limit 0]
  by (auto simp: fan_out_unit_def Let_def)

lemma review_unit_status:
  "u_status u \<in> {Under_review, Accepted, Failed} \<Longrightarrow>
   u_status (review_unit svc rnd u) \<in> {Needs_fix, Accepted, Failed}"
  by (auto simp: review_unit_def Let_def)

lemma route_unit_status:
  "u_status u \<in> {Needs_fix, Accepted, Failed} \<Longrightarrow>
   u_status (route_unit svc limit rnd u) \<in> {Under_review, Accepted, Failed}"
  using draft_unit_status [of svc limit rnd "u\<lparr>u_status := Drafting\<rparr>"]
  by (auto simp: route_unit_def)

lemma force_accept_status:
  "u_status u \<in> {Needs_fix, Accepted, Failed} \<Longrightarrow> terminal_status (u_status (force_accept u))"
  by (auto simp: force_accept_def terminal_status_def)

lemma harmonize_unit_status:
  "terminal_status (u_status u) \<Longrightarrow> terminal_status (u_status (harmonize_unit svc u))"
  by (auto simp: harmonize_unit_def terminal_status_def Let_def split: option.splits)

lemma advance_max: "max_review_rounds (advance svc st) = max_review_rounds st"
  by (cases "stage st") (simp_all add: advance_def Let_def)

lemma advance_stage_inv: "stage_inv st \<Longrightarrow> stage_inv (advance svc st)"
proof (cases "stage st")
  case Fanning_out
  assume "stage_inv st"
  with Fanning_out show ?thesis
    using fan_out_unit_status
    by (simp add: stage_inv_def advance_def list_all_iff)
next
  case Reviewing
  assume inv: "stage_inv st"
  let ?us = "map (review_unit svc (round_counter st)) (units st)"
  from inv Reviewing have a: "\<forall>u \<in> set ?us. u_status u \<in> {Needs_fix, Accepted, Failed}"
    using review_unit_status by (auto simp: stage_inv_def list_all_iff)
  show ?thesis
  proof (cases "list_ex (\<lambda>u. u_status u = Needs_fix) ?us")
    case True
    with inv Reviewing a show ?thesis
      by (simp add: stage_inv_def advance_def Let_def list_all_iff)
  next
    case False
    with a have "\<forall>u \<in> set ?us. terminal_status (u_status u)"
      by (auto simp: list_ex_iff terminal_status_def)
    with inv Reviewing False show ?thesis
      by (simp add: stage_inv_def advance_def Let_def list_all_iff)
  qed
next
  case Fixing
  assume inv: "stage_inv st"
  show ?thesis
  proof (cases "max_review_rounds st < round_counter st")
    case True
    with inv Fixing show ?thesis
      using force_accept_status
      by (simp add: stage_inv_def advance_def list_all_iff)
  next
    case False
    with inv Fixing show ?thesis
      using route_unit_status
      by (simp add: stage_inv_def advance_def list_all_iff)
  qed
next
  case Editing
  assume "stage_inv st"
  with Editing show ?thesis
    using harmonize_unit_status
    by (simp add: stage_inv_def advance_def list_all_iff)
qed (simp_all add: stage_inv_def advance_def)

lemma start_stage_inv: "start now p = Inr st \<Longrightarrow> stage_inv st"
  by (auto simp: start_def stage_inv_def split: if_splits)

lemma start_max: "start now p = Inr st \<Longrightarrow> max_review_rounds st = p_max_review_rounds p"
  by (auto simp: start_def split: if_splits)

lemma funpow_stage_inv: "stage_inv st \<Longrightarrow> stage_inv ((advance svc ^^ n) st)"
  by (induction n) (simp_all add: advance_stage_inv)

lemma funpow_max: "max_review_rounds ((advance svc ^^ n) st) = max_review_rounds st"
  by (induction n) (simp_all add: advance_max)

lemma forced_acceptance:
  assumes "stage st = Fixing" and "max_review_rounds st < round_counter st"
  shows "stage (advance svc st) = Editing
         \<and> map current_draft (units (advance svc st)) = map current_draft (units st)
         \<and> map (\<lambda>u. u_status u = Accepted) (units (advance svc st))
             = map (\<lambda>u. u_status u = Accepted \<or> u_status u = Needs_fix) (units st)"
  using assms by (auto simp: advance_def force_accept_def)

lemma sample_start_eq: "start 30 sample_params = Inr sample_start"
  by (simp add: start_def sample_params_def sample_start_def)

lemma strict_run:
  "stage (run strict_service sample_start) = Done
   \<and> round_counter (run strict_service sample_start) = 2
   \<and> map u_status (units (run strict_service sample_start)) = [Accepted, Accepted]
   \<and> map current_draft (units (run strict_service sample_start)) = [Some sample_draft, Some sample_draft]
   \<and> map pack_ids (units (run strict_service sample_start))
       = replicate 2 [''ev_0000000a'', ''ev_0000000b'']"
  by code_simp

lemma careless_run:
  "map u_status (units (run careless_service sample_start)) = [Failed, Failed]"
  by code_simp

text \<open>
  C6. A run that starts terminates: the driver is a total function and its result is in
  the stage \<open>done\<close> with every Unit accepted or failed. In every state the run passes
  through, the round counter is at most \<open>max_review_rounds + 1\<close>. In the fixing stage with
  the round counter above the maximum, the next transition goes on to editing, keeps every
  Unit's draft and turns exactly the Units in need of a fix, besides those accepted
  before, into accepted ones.
\<close>

theorem fix_loop_terminates_within_bound:
  assumes "start now p = Inr st0"
  shows "stage (run svc st0) = Done
     \<and> (\<forall>u \<in> set (units (run svc st0)). u_status u = Accepted \<or> u_status u = Failed)
     \<and> (\<forall>n. round_counter ((advance svc ^^ n) st0) \<le> p_max_review_rounds p + 1)
     \<and> round_counter (run svc st0) \<le> p_max_review_rounds p + 1
     \<and> (\<forall>st. stage st = Fixing \<and> max_review_rounds st < round_counter st
           \<longrightarrow> stage (advance svc st) = Editing
               \<and> map current_draft (units (advance svc st)) = map current_draft (units st)
               \<and> map (\<lambda>u. u_status u = Accepted) (units (advance svc st))
                   = map (\<lambda>u. u_status u = Accepted \<or> u_status u = Needs_fix) (units st))"
proof -
  from assms have inv0: "stage_inv st0" by (rule start_stage_inv)
  from assms have mx: "max_review_rounds st0 = p_max_review_rounds p" by (rule start_max)
  have bound: "\<And>n. round_counter ((advance svc ^^ n) st0) \<le> p_max_review_rounds p + 1"
  proof -
    fix n
    from funpow_stage_inv [OF inv0, where svc=svc and n=n] funpow_max [where svc=svc and n=n and st=st0] mx
    show "round_counter ((advance svc ^^ n) st0) \<le> p_max_review_rounds p + 1"
      by (simp add: stage_inv_def)
  qed
  obtain k where k: "run svc st0 = (advance svc ^^ k) st0"
    using run_is_iterated_advance by blast
  with funpow_stage_inv [OF inv0, where svc=svc and n=k] have invk: "stage_inv (run svc st0)" by simp
  with run_stops [of svc st0] have fin: "stage (run svc st0) = Done"
    by (auto simp: stage_inv_def)
  with fin invk have trm: "\<forall>u \<in> set (units (run svc st0)). u_status u = Accepted \<or> u_status u = Failed"
    by (simp add: stage_inv_def list_all_iff terminal_status_def)
  from bound [of k] k have rb: "round_counter (run svc st0) \<le> p_max_review_rounds p + 1" by simp
  from fin trm bound rb forced_acceptance show ?thesis by blast
qed

text \<open>
  Two verticals, one review round allowed, a reviewer that never accepts: the run ends in
  \<open>done\<close> after the round counter has reached 2, with both Units accepted by force.
\<close>

theorem fix_loop_witness:
  "start 30 sample_params = Inr sample_start
   \<and> stage (run strict_service sample_start) = Done
   \<and> map u_status (units (run strict_service sample_start)) = [Accepted, Accepted]
   \<and> round_counter (run strict_service sample_start) = 2
   \<and> round_counter (run strict_service sample_start) \<le> p_max_review_rounds sample_params + 1"
  using fix_loop_terminates_within_bound [OF sample_start_eq, where svc=strict_service] sample_start_eq strict_run
  by simp

text \<open>
  C1. In every state of a run, and in its result, a Unit that is accepted holds a Draft
  whose paragraph and whose every bullet cite at least one ID of the Unit's evidence pack.
  A Draft that violates this fails the Section Drafter's validation: the Unit fails, and
  the Reviewer leaves a failed Unit as it is, whatever the score.
\<close>

theorem accepted_drafts_are_grounded:
  "(start now p = Inr st0 \<longrightarrow>
      (\<forall>u \<in> set (units ((advance svc ^^ n) st0)) \<union> set (units (run svc st0)).
         u_status u = Accepted \<longrightarrow>
           (\<exists>d. current_draft u = Some d
              \<and> (\<exists>i \<in> set (paragraph_cites d). i \<in> set (pack_ids u))
              \<and> (\<forall>b \<in> set (draft_bullets d). \<exists>i \<in> set (sb_cites b). i \<in> set (pack_ids u)))))
   \<and> (propose svc rnd (vertical_id u0) = Some (d0, extra)
        \<and> \<not> ((\<exists>i \<in> set (paragraph_cites d0). i \<in> set (pack_ids u0 @ extra))
              \<and> (\<forall>b \<in> set (draft_bullets d0). \<exists>i \<in> set (sb_cites b). i \<in> set (pack_ids u0 @ extra)))
        \<longrightarrow> u_status (draft_unit svc limit rnd u0) = Failed
            \<and> u_status (review_unit svc rnd' (draft_unit svc limit rnd u0)) = Failed)"
proof (intro conjI impI ballI)
  fix u
  assume st: "start now p = Inr st0"
    and u: "u \<in> set (units ((advance svc ^^ n) st0)) \<union> set (units (run svc st0))"
    and acc: "u_status u = Accepted"
  obtain k where k: "run svc st0 = (advance svc ^^ k) st0"
    using run_is_iterated_advance by blast
  from u k reachable_grounded [OF st, where svc=svc and n=n] reachable_grounded [OF st, where svc=svc and n=k]
  have "unit_grounded u" by auto
  with acc show "\<exists>d. current_draft u = Some d
              \<and> (\<exists>i \<in> set (paragraph_cites d). i \<in> set (pack_ids u))
              \<and> (\<forall>b \<in> set (draft_bullets d). \<exists>i \<in> set (sb_cites b). i \<in> set (pack_ids u))"
    by (simp add: unit_grounded_def citation_valid_iff)
next
  assume a: "propose svc rnd (vertical_id u0) = Some (d0, extra)
        \<and> \<not> ((\<exists>i \<in> set (paragraph_cites d0). i \<in> set (pack_ids u0 @ extra))
              \<and> (\<forall>b \<in> set (draft_bullets d0). \<exists>i \<in> set (sb_cites b). i \<in> set (pack_ids u0 @ extra)))"
  then have "\<not> citation_valid (pack_ids u0 @ extra) d0"
    unfolding citation_valid_iff by blast
  with a show f: "u_status (draft_unit svc limit rnd u0) = Failed"
    by (simp add: draft_unit_def validate_draft_def Let_def)
  then show "u_status (review_unit svc rnd' (draft_unit svc limit rnd u0)) = Failed"
    by (simp add: review_unit_def)
qed

text \<open>
  The run of the sample: both Units end accepted with the sample Draft, whose paragraph and
  bullet each cite an ID of the pack. With a drafter that leaves a bullet without any
  citation, both Units fail.
\<close>

theorem accepted_drafts_witness:
  "start 30 sample_params = Inr sample_start
   \<and> map u_status (units (run strict_service sample_start)) = [Accepted, Accepted]
   \<and> map current_draft (units (run strict_service sample_start)) = [Some sample_draft, Some sample_draft]
   \<and> map pack_ids (units (run strict_service sample_start)) = replicate 2 [''ev_0000000a'', ''ev_0000000b'']
   \<and> citation_valid [''ev_0000000a'', ''ev_0000000b''] sample_draft
   \<and> map u_status (units (run careless_service sample_start)) = [Failed, Failed]"
proof -
  let ?u = "hd (units (run strict_service sample_start))"
  from strict_run have ne: "units (run strict_service sample_start) \<noteq> []" by auto
  then have mem: "?u \<in> set (units ((advance strict_service ^^ 0) sample_start))
                       \<union> set (units (run strict_service sample_start))"
    by simp
  from strict_run ne have acc: "u_status ?u = Accepted" and d: "current_draft ?u = Some sample_draft"
    and pk: "pack_ids ?u = [''ev_0000000a'', ''ev_0000000b'']"
    by (simp_all add: hd_map [symmetric] del: hd_map)
  from accepted_drafts_are_grounded
         [where now=30 and p=sample_params and ?st0.0=sample_start and svc=strict_service and n=0]
       sample_start_eq mem acc
  have "\<exists>d. current_draft ?u = Some d
              \<and> (\<exists>i \<in> set (paragraph_cites d). i \<in> set (pack_ids ?u))
              \<and> (\<forall>b \<in> set (draft_bullets d). \<exists>i \<in> set (sb_cites b). i \<in> set (pack_ids ?u))"
    by blast
  with d pk have "citation_valid [''ev_0000000a'', ''ev_0000000b''] sample_draft"
    by (simp add: citation_valid_iff)
  with sample_start_eq strict_run careless_run show ?thesis by simp
qed

end
